theory Spec2Isabelle
  imports Main
begin

section \<open>Python strings\<close>

text \<open>
  The two scripts read a Markdown file into a Python \<^verbatim>\<open>str\<close>, transform it and write it
  back. A Python string is modelled as a HOL \<^typ>\<open>string\<close>, one \<^typ>\<open>char\<close> per code point,
  so the model covers texts whose code points are below 256. In that range the regular
  expression class \<^verbatim>\<open>\d\<close> is exactly the ASCII digits, and \<^verbatim>\<open>str.strip()\<close> removes
  exactly the characters of \<open>is_space\<close> below. Python integers are unbounded and never
  negative here, so they are \<^typ>\<open>nat\<close>; the interpreter's optional limit on the length of
  a decimal numeral (\<^verbatim>\<open>sys.set_int_max_str_digits\<close>) is not modelled.
\<close>

text \<open>
  \<^verbatim>\<open>content.split('\n')\<close>: the pieces between the newlines. The result is never the
  empty list, so the first alternative of the \<open>case\<close> below is never taken.
\<close>

fun str_split :: "string \<Rightarrow> string list" where
  "str_split [] = [[]]"
| "str_split (c # cs) =
     (if c = CHR 0x0A then [] # str_split cs
      else (case str_split cs of [] \<Rightarrow> [[c]] | l # ls \<Rightarrow> (c # l) # ls))"

text \<open>\<^verbatim>\<open>'\n'.join(new_lines)\<close>\<close>

fun str_join :: "string list \<Rightarrow> string" where
  "str_join [] = []"
| "str_join [l] = l"
| "str_join (l # m # ls) = l @ CHR 0x0A # str_join (m # ls)"

text \<open>\<^verbatim>\<open>s.strip()\<close>: whitespace removed at both ends.\<close>

definition is_space :: "char \<Rightarrow> bool" where
  "is_space c = ((of_char c :: nat) \<in> {9, 10, 11, 12, 13, 28, 29, 30, 31, 32, 133, 160})"

definition str_strip :: "string \<Rightarrow> string" where
  "str_strip s = rev (dropWhile is_space (rev (dropWhile is_space s)))"

text \<open>\<^verbatim>\<open>\d\<close>, \<^verbatim>\<open>int(digits)\<close> and the decimal numeral of \<^verbatim>\<open>f"{n}"\<close>.\<close>

definition is_digit :: "char \<Rightarrow> bool" where
  "is_digit c = (48 \<le> (of_char c :: nat) \<and> (of_char c :: nat) \<le> 57)"

definition digit_val :: "char \<Rightarrow> nat" where
  "digit_val c = of_char c - 48"

definition py_int :: "string \<Rightarrow> nat" where
  "py_int ds = foldl (\<lambda>a c. 10 * a + digit_val c) 0 ds"

fun py_str :: "nat \<Rightarrow> string" where
  "py_str n =
     (if n < 10 then [char_of (48 + n)]
      else py_str (n div 10) @ [char_of (48 + n mod 10)])"

declare py_str.simps [simp del]

text \<open>
  A triple-quoted literal is written here as the list of its lines; the text is every line
  followed by a newline.
\<close>

definition text_lines :: "string list \<Rightarrow> string" where
  "text_lines ls = concat (map (\<lambda>l. l @ [CHR 0x0A]) ls)"

section \<open>docs/update\_specs.py: inserting the Onboarding use case\<close>

text \<open>The literal \<^verbatim>\<open>new_use_case\<close>: it starts right after the opening quotes.\<close>

definition new_use_case_lines :: "string list" where
  \<open>new_use_case_lines =
    [''## 8. Onboarding'',
     '''',
     ''**1. Use Case Name**'',
     ''Onboarding'',
     '''',
     ''**2. Description (Purpose)**'',
     ''This use case guides a new Job Seeker through setting up their profile, including personal details, industry preferences, and resume generation, to ensure they are ready to apply for jobs.'',
     '''',
     ''**3. Primary Actor**'',
     ''Job Seeker'',
     '''',
     ''**4. Supporting Actors**'',
     ''System'',
     '''',
     ''**5. Stakeholders and Interests**'',
     '''',
     ''- **Job Seeker:** Wants to quickly set up their profile to start applying.'',
     ''- **Employer:** Wants candidates to have complete profiles for better evaluation.'',
     ''- **System:** Needs to collect user data to provide relevant job recommendations.'',
     '''',
     ''**6. Preconditions**'',
     '''',
     ''- Job Seeker has successfully registered and verified their account.'',
     ''- Job Seeker has not completed the onboarding process.'',
     '''',
     ''**7. Postconditions**'',
     '''',
     ''- **Success:** Job Seeker profile is complete, preferences are set, resume is generated, and onboarding status is finalized.'',
     ''- **Failure:** Onboarding is incomplete; user stays in the onboarding flow.'',
     '''',
     ''**8. Trigger**'',
     ''Job Seeker completes account verification or logs in for the first time.'',
     '''',
     ''**9. Main Success Scenario (Standard Flow)**'',
     '''',
     ''1.  System initiates the Onboarding Flow.'',
     ''2.  Job Seeker completes Personal Profile (Name, Contact, Address).'',
     ''3.  System validates and saves profile data.'',
     ''4.  Job Seeker selects Preferred Industries.'',
     ''5.  System saves preferences.'',
     ''6.  Job Seeker initiates Resume Generation.'',
     ''7.  System generates resume (AI/Template) and saves it.'',
     ''8.  System displays a summary of the provided information.'',
     ''9.  Job Seeker reviews the information.'',
     ''10. Job Seeker confirms and clicks "Continue".'',
     ''11. System finalizes onboarding status.'',
     ''12. System redirects Job Seeker to the Dashboard.'',
     '''',
     ''**10. Alternative Flows**'',
     '''',
     ''- **A1: Skip Steps**'',
     ''  1.  At steps 2, 4, or 6, the Job Seeker chooses to skip the step.'',
     ''  2.  System proceeds to the next step without saving data for that section.'',
     ''- **A2: Edit Information**'',
     ''  1.  At step 9, Job Seeker chooses to edit information.'',
     ''  2.  Flow returns to the relevant section (Step 2, 4, or 6).'',
     '''',
     ''**11. Exception Flows**'',
     '''',
     ''- **E1: Validation Error:** System shows error message; user corrects input.'',
     ''- **E2: Generation Failure:** Resume generation fails; system offers retry.'',
     '''',
     ''---'',
     '''']\<close>

definition new_use_case :: string where
  "new_use_case = text_lines new_use_case_lines"

text \<open>
  \<^verbatim>\<open>section_pattern = re.compile(r'^## (\d+)\. (.+)')\<close> with \<^verbatim>\<open>section_pattern.match(line)\<close>:
  the match is anchored at the start of the line; \<^verbatim>\<open>\d+\<close> takes the whole run of digits
  (a shorter run would have to be followed by a dot, and is followed by a digit);
  \<^verbatim>\<open>.+\<close> takes at least one character and stops before a newline. The result is the
  pair of groups 1 and 2.
\<close>

definition section_pattern :: "string \<Rightarrow> (string \<times> string) option" where
  "section_pattern line =
     (if take 3 line = ''## '' then
        (let r = drop 3 line;
             digits = takeWhile is_digit r;
             r' = dropWhile is_digit r
         in if digits \<noteq> [] \<and> take 2 r' = ''. '' then
              (let title = takeWhile (\<lambda>c. c \<noteq> CHR 0x0A) (drop 2 r')
               in if title \<noteq> [] then Some (digits, title) else None)
            else None)
      else None)"

text \<open>\<^verbatim>\<open>f"## {current_section_num}. {title}"\<close>\<close>

definition heading_line :: "nat \<Rightarrow> string \<Rightarrow> string" where
  "heading_line n title = ''## '' @ py_str n @ ''. '' @ title"

text \<open>The variables the loop updates.\<close>

record loop_state =
  new_lines :: "string list"
  inserted :: bool
  current_section_num :: nat

definition loop_init :: loop_state where
  "loop_init = \<lparr>new_lines = [], inserted = False, current_section_num = 0\<rparr>"

text \<open>One iteration of \<^verbatim>\<open>for line in lines\<close>.\<close>

definition loop_body :: "loop_state \<Rightarrow> string \<Rightarrow> loop_state" where
  "loop_body st line =
     (case section_pattern line of
        Some (g1, title) \<Rightarrow>
          (let num = py_int g1 in
           if num = 8 \<and> \<not> inserted st then
             st\<lparr>new_lines :=
                  new_lines st @ [str_strip new_use_case, [], [], heading_line 9 title],
                inserted := True,
                current_section_num := 9\<rparr>
           else if inserted st then
             st\<lparr>new_lines :=
                  new_lines st @ [heading_line (current_section_num st + 1) title],
                current_section_num := current_section_num st + 1\<rparr>
           else st\<lparr>new_lines := new_lines st @ [line]\<rparr>)
      | None \<Rightarrow> st\<lparr>new_lines := new_lines st @ [line]\<rparr>)"

text \<open>\<^verbatim>\<open>new_lines\<close> after the loop, and the text written back.\<close>

definition update_specs_lines :: "string \<Rightarrow> string list" where
  "update_specs_lines content =
     new_lines (foldl loop_body loop_init (str_split content))"

definition update_specs :: "string \<Rightarrow> string" where
  "update_specs content = str_join (update_specs_lines content)"

section \<open>update\_specs\_employer.py: inserting the Employer Onboarding use case\<close>

text \<open>The literal \<^verbatim>\<open>new_section\<close>: its first line, after the opening quotes, is empty.\<close>

definition new_section_lines :: "string list" where
  \<open>new_section_lines =
    ['''',
     ''## 18. Employer Onboarding'',
     '''',
     ''**1. Use Case Name**'',
     ''Employer Onboarding'',
     '''',
     ''**2. Description (Purpose)**'',
     ''This use case guides the Employer through the initial company profile setup and verification document submission.'',
     '''',
     ''**3. Primary Actor**'',
     ''Employer'',
     '''',
     ''**4. Supporting Actors**'',
     ''Admin (for subsequent verification)'',
     '''',
     ''**5. Stakeholders and Interests**'',
     '''',
     ''- **Employer:** Wants to get their account verified to start posting jobs.'',
     ''- **Admin:** Needs to verify legitimate businesses.'',
     '''',
     ''**6. Preconditions**'',
     ''- Employer account is created and email verified.'',
     ''- Onboarding is not completed.'',
     '''',
     ''**7. Postconditions**'',
     ''- **Success:** Company profile and documents submitted for review. Account status set to Pending.'',
     ''- **Failure:** Onboarding remains incomplete.'',
     '''',
     ''**8. Trigger**'',
     ''User completes account verification or logs in with an incomplete profile/verification.'',
     '''',
     ''**9. Main Success Scenario (Standard Flow)**'',
     '''',
     ''1.  System initiates Employer Onboarding Flow.'',
     ''2.  User completes Company Profile details.'',
     ''3.  User uploads Verification Documents.'',
     ''4.  System displays summary.'',
     ''5.  User reviews information.'',
     ''6.  User clicks "Continue".'',
     ''7.  System sets account status to "Pending".'',
     ''8.  System notifies Admin for review.'',
     ''9.  System shows "Pending Approval" screen.'',
     '''',
     ''**10. Alternative Flows**'',
     '''',
     ''- **A1: Edit Information**'',
     ''  1.  User chooses to edit information during review.'',
     ''  2.  System navigates back to the relevant step.'',
     '''',
     ''**11. Exception Flows**'',
     '''',
     ''- **E1: Validation Error:** System shows error message.'',
     ''- **E2: Upload Failed:** Document upload fails; system prompts to retry.'',
     '''',
     ''---'']\<close>

definition new_section :: string where
  "new_section = text_lines new_section_lines"

text \<open>
  \<^verbatim>\<open>re.search(r"^## 18\.", content, re.MULTILINE)\<close>: with \<^verbatim>\<open>re.MULTILINE\<close> the anchor
  matches at the start of the text and after every newline, that is at the start of
  every element of \<^verbatim>\<open>content.split('\n')\<close>. The result is \<^verbatim>\<open>match.start()\<close> of the
  first match.
\<close>

fun search_18 :: "string list \<Rightarrow> nat option" where
  "search_18 [] = None"
| "search_18 (l # ls) =
     (if take 6 l = ''## 18.'' then Some 0
      else map_option (\<lambda>i. length l + 1 + i) (search_18 ls))"

definition re_search_18 :: "string \<Rightarrow> nat option" where
  "re_search_18 content = search_18 (str_split content)"

text \<open>
  \<^verbatim>\<open>re.sub(r"^## (\d+)\.", lambda m: f"## {int(m.group(1)) + 1}.", after, flags=re.MULTILINE)\<close>:
  a match never crosses a newline, so the substitution works on every line by itself.
  \<open>header_pattern\<close> is the match at the start of a line: group 1 and the rest of the
  line after the match. \<open>replace_header\<close> puts the lambda's result in place of the match
  (the source's unused \<^verbatim>\<open>def replace_header\<close> computes the same string).
\<close>

definition header_pattern :: "string \<Rightarrow> (string \<times> string) option" where
  "header_pattern line =
     (if take 3 line = ''## '' then
        (let r = drop 3 line;
             digits = takeWhile is_digit r;
             r' = dropWhile is_digit r
         in if digits \<noteq> [] \<and> take 1 r' = ''.'' then Some (digits, drop 1 r') else None)
      else None)"

definition replace_header :: "string \<Rightarrow> string" where
  "replace_header line =
     (case header_pattern line of
        None \<Rightarrow> line
      | Some (g1, rest) \<Rightarrow> ''## '' @ py_str (py_int g1 + 1) @ ''.'' @ rest)"

definition re_sub_headers :: "string \<Rightarrow> string" where
  "re_sub_headers s = str_join (map replace_header (str_split s))"

text \<open>\<^verbatim>\<open>exit(1)\<close> after the message that section 18 was not found.\<close>

datatype error = SystemExit nat

definition update_specs_employer :: "string \<Rightarrow> error + string" where
  "update_specs_employer content =
     (case re_search_18 content of
        None \<Rightarrow> Inl (SystemExit 1)
      | Some insert_index \<Rightarrow>
          (let before = take insert_index content;
               after = drop insert_index content;
               after_renumbered = re_sub_headers after
           in Inr (before @ new_section @ after_renumbered)))"

section \<open>The scripts as programs on the file\<close>

text \<open>
  Both scripts read the whole file, compute the new text and write the whole file. The
  state is the file's text, as Python reads and writes it in text mode (decoding and the
  translation of line ends belong to the file layer), and what was printed; the result is
  the exit status.
\<close>

record world =
  file_content :: string
  stdout :: "string list"

definition update_specs_main :: "world \<Rightarrow> nat \<times> world" where
  "update_specs_main w =
     (0, w\<lparr>file_content := update_specs (file_content w),
           stdout := stdout w @ [''Successfully updated use-case-specifications.md'']\<rparr>)"

definition update_specs_employer_main :: "world \<Rightarrow> nat \<times> world" where
  "update_specs_employer_main w =
     (case update_specs_employer (file_content w) of
        Inl (SystemExit status) \<Rightarrow>
          (status, w\<lparr>stdout := stdout w @ [''Could not find Section 18.'']\<rparr>)
      | Inr new_content \<Rightarrow>
          (0, w\<lparr>file_content := new_content,
                stdout := stdout w @
                  [''Successfully inserted Employer Onboarding and renumbered sections.'']\<rparr>))"

section \<open>The sections of a document\<close>

text \<open>
  A heading line as the loop of \<^verbatim>\<open>update_specs.py\<close> reads it: the line matches
  \<open>section_pattern\<close>, \<^verbatim>\<open>num = int(match.group(1))\<close> and \<^verbatim>\<open>title = match.group(2)\<close>.
  The headings of a text are those of its lines, in order.
\<close>

definition heading_of :: "string \<Rightarrow> (nat \<times> string) option" where
  "heading_of line =
     map_option (\<lambda>(g1, title). (py_int g1, title)) (section_pattern line)"

definition headings :: "string \<Rightarrow> (nat \<times> string) list" where
  "headings content = List.map_filter heading_of (str_split content)"

definition section_num :: "string \<Rightarrow> nat option" where
  "section_num line = map_option fst (heading_of line)"

text \<open>
  The lines the loop appends once \<^verbatim>\<open>inserted\<close> is true, when the counter stands at \<open>k\<close>:
  used to describe the loop's result in the proofs.
\<close>

fun renumber :: "nat \<Rightarrow> string list \<Rightarrow> string list" where
  "renumber k [] = []"
| "renumber k (l # ls) =
     (case section_pattern l of
        None \<Rightarrow> l # renumber k ls
      | Some (g1, title) \<Rightarrow> heading_line (k + 1) title # renumber (k + 1) ls)"

section \<open>Example documents\<close>

text \<open>Documents with the sections 1 to 6, 1 to 7, 1 to 17 and 1 to 19, one line each.\<close>

definition sections_1_to_6 :: string where
  "sections_1_to_6 =
     ''## 1. a\<newline>## 2. b\<newline>## 3. c\<newline>## 4. d\<newline>## 5. e\<newline>## 6. f''"

definition sections_1_to_7 :: string where
  "sections_1_to_7 =
     ''## 1. a\<newline>## 2. b\<newline>## 3. c\<newline>## 4. d\<newline>## 5. e\<newline>## 6. f\<newline>## 7. g''"

definition sections_1_to_17 :: string where
  "sections_1_to_17 =
     ''## 1. a\<newline>## 2. b\<newline>## 3. c\<newline>## 4. d\<newline>## 5. e\<newline>## 6. f\<newline>## 7. g\<newline>## 8. h\<newline>## 9. i\<newline>## 10. j\<newline>## 11. k\<newline>## 12. l\<newline>## 13. m\<newline>## 14. n\<newline>## 15. o\<newline>## 16. p\<newline>## 17. q''"

definition sections_1_to_19 :: string where
  "sections_1_to_19 =
     ''## 1. a\<newline>## 2. b\<newline>## 3. c\<newline>## 4. d\<newline>## 5. e\<newline>## 6. f\<newline>## 7. g\<newline>## 8. h\<newline>## 9. i\<newline>## 10. j\<newline>## 11. k\<newline>## 12. l\<newline>## 13. m\<newline>## 14. n\<newline>## 15. o\<newline>## 16. p\<newline>## 17. q\<newline>## 18. r\<newline>## 19. s''"

text \<open>
  A document whose numbering is not contiguous, and in which lines that look like
  headings stand in the bodies of sections 8 and 18.
\<close>

definition example_lines :: "string list" where
  "example_lines =
     [''# Use Case Specifications'',
      ''## 7. Sign Up / Login'',
      ''see ## 8. below'',
      ''## 8. Create Job Post'',
      ''body'',
      ''## 3. Example'',
      ''## 18. Reports'',
      ''## 3. Example'',
      ''## 18.5 draft'',
      ''## 18. Reports'']"

definition example_doc :: string where
  "example_doc = str_join example_lines"

section \<open>Properties of the string primitives\<close>

lemma str_split_not_Nil [simp]: "str_split s \<noteq> []"
  by (induction s) (auto split: list.splits)

lemma str_split_no_nl: "l \<in> set (str_split s) \<Longrightarrow> CHR 0x0A \<notin> set l"
proof (induction s arbitrary: l)
  case Nil
  then show ?case by simp
next
  case (Cons c cs)
  show ?case
  proof (cases "c = CHR 0x0A")
    case True
    with Cons show ?thesis by auto
  next
    case False
    obtain m ms where ms: "str_split cs = m # ms"
      by (cases "str_split cs") auto
    with False Cons.prems have "l = c # m \<or> l \<in> set ms" by auto
    with False ms Cons.IH [of m] Cons.IH [of l] show ?thesis by auto
  qed
qed

lemma str_join_split [simp]: "str_join (str_split s) = s"
proof (induction s)
  case Nil
  show ?case by simp
next
  case (Cons c cs)
  obtain m ms where ms: "str_split cs = m # ms"
    by (cases "str_split cs") auto
  with Cons show ?case by (cases ms) auto
qed

lemma str_split_line: "CHR 0x0A \<notin> set l \<Longrightarrow> str_split l = [l]"
  by (induction l) auto

lemma str_split_append_nl: "str_split (a @ CHR 0x0A # b) = str_split a @ str_split b"
proof (induction a)
  case Nil
  show ?case by simp
next
  case (Cons c cs)
  obtain m ms where ms: "str_split cs = m # ms"
    by (cases "str_split cs") auto
  with Cons show ?case by auto
qed

lemma str_join_Cons: "ls \<noteq> [] \<Longrightarrow> str_join (l # ls) = l @ CHR 0x0A # str_join ls"
  by (cases ls) auto

lemma str_split_join: "ls \<noteq> [] \<Longrightarrow> str_split (str_join ls) = concat (map str_split ls)"
proof (induction ls)
  case Nil
  then show ?case by simp
next
  case (Cons l ls)
  then show ?case by (cases ls) (auto simp: str_join_Cons str_split_append_nl)
qed

lemma concat_map_single: "(\<And>l. l \<in> set ls \<Longrightarrow> f l = [l]) \<Longrightarrow> concat (map f ls) = ls"
  by (induction ls) auto

lemma str_split_join_lines:
  "ls \<noteq> [] \<Longrightarrow> \<forall>l\<in>set ls. CHR 0x0A \<notin> set l \<Longrightarrow> str_split (str_join ls) = ls"
  by (simp add: str_split_join concat_map_single str_split_line)

lemma text_lines_Cons [simp]: "text_lines (l # ls) = l @ CHR 0x0A # text_lines ls"
  by (simp add: text_lines_def)

lemma text_lines_Nil [simp]: "text_lines [] = []"
  by (simp add: text_lines_def)

lemma text_lines_append [simp]: "text_lines (xs @ ys) = text_lines xs @ text_lines ys"
  by (simp add: text_lines_def)

lemma text_lines_join: "ys \<noteq> [] \<Longrightarrow> text_lines xs @ str_join ys = str_join (xs @ ys)"
  by (induction xs) (auto simp: str_join_Cons)


lemma length_text_lines_take:
  "str_split s = pre @ rest \<Longrightarrow> rest \<noteq> [] \<Longrightarrow> take (length (text_lines pre)) s = text_lines pre"
proof -
  assume a: "str_split s = pre @ rest" and r: "rest \<noteq> []"
  have "s = str_join (pre @ rest)" using a str_join_split [of s] by simp
  also have "\<dots> = text_lines pre @ str_join rest" using r by (simp add: text_lines_join)
  finally show ?thesis by simp
qed

section \<open>Decimal numerals\<close>

lemma is_digit_char_of: "d < 10 \<Longrightarrow> is_digit (char_of (48 + d :: nat))"
  by (simp add: is_digit_def)

lemma digit_val_char_of: "d < 10 \<Longrightarrow> digit_val (char_of (48 + d :: nat)) = d"
  by (simp add: digit_val_def)

lemma py_str_not_Nil [simp]: "py_str n \<noteq> []"
  by (subst py_str.simps) simp

lemma py_str_digits: "c \<in> set (py_str n) \<Longrightarrow> is_digit c"
proof (induction n arbitrary: c rule: py_str.induct)
  case (1 n)
  show ?case
  proof (cases "n < 10")
    case True
    with "1.prems" show ?thesis
      by (subst (asm) py_str.simps) (simp add: is_digit_char_of)
  next
    case False
    with "1.prems" have "c \<in> set (py_str (n div 10)) \<or> c = char_of (48 + n mod 10)"
      by (subst (asm) py_str.simps) auto
    with False "1.IH" show ?thesis
      by (auto simp: is_digit_char_of)
  qed
qed

lemma py_int_snoc: "py_int (ds @ [c]) = 10 * py_int ds + digit_val c"
  by (simp add: py_int_def)

lemma py_int_py_str [simp]: "py_int (py_str n) = n"
proof (induction n rule: py_str.induct)
  case (1 n)
  show ?case
  proof (cases "n < 10")
    case True
    then show ?thesis
      by (subst py_str.simps) (simp add: py_int_def digit_val_char_of)
  next
    case False
    with "1.IH" show ?thesis
      by (subst py_str.simps) (simp add: py_int_snoc digit_val_char_of)
  qed
qed

section \<open>The two patterns\<close>

lemma not_digit_dot [simp]: "\<not> is_digit CHR ''.''"
  by (simp add: is_digit_def)

lemma takeWhile_digits:
  "\<forall>c\<in>set ds. is_digit c \<Longrightarrow> takeWhile is_digit (ds @ CHR ''.'' # r) = ds"
  by (simp add: takeWhile_append2)

lemma dropWhile_digits:
  "\<forall>c\<in>set ds. is_digit c \<Longrightarrow> dropWhile is_digit (ds @ CHR ''.'' # r) = CHR ''.'' # r"
  by (simp add: dropWhile_append2)

lemma takeWhile_no_nl: "CHR 0x0A \<notin> set t \<Longrightarrow> takeWhile (\<lambda>c. c \<noteq> CHR 0x0A) t = t"
  by (induction t) auto

lemma header_pattern_line:
  "ds \<noteq> [] \<Longrightarrow> \<forall>c\<in>set ds. is_digit c \<Longrightarrow>
   header_pattern (''## '' @ ds @ ''.'' @ rest) = Some (ds, rest)"
  by (simp add: header_pattern_def takeWhile_digits dropWhile_digits)

lemma section_pattern_line:
  "ds \<noteq> [] \<Longrightarrow> \<forall>c\<in>set ds. is_digit c \<Longrightarrow> t \<noteq> [] \<Longrightarrow> CHR 0x0A \<notin> set t \<Longrightarrow>
   section_pattern (''## '' @ ds @ ''. '' @ t) = Some (ds, t)"
  by (simp add: section_pattern_def takeWhile_digits dropWhile_digits takeWhile_no_nl)

lemma section_pattern_heading_line:
  "t \<noteq> [] \<Longrightarrow> CHR 0x0A \<notin> set t \<Longrightarrow> section_pattern (heading_line n t) = Some (py_str n, t)"
  unfolding heading_line_def
  by (rule section_pattern_line) (auto simp: py_str_digits)

lemma section_pattern_SomeD:
  assumes "section_pattern l = Some (g, t)"
  shows "g \<noteq> []" and "\<forall>c\<in>set g. is_digit c" and "t \<noteq> []" and "CHR 0x0A \<notin> set t"
    and "CHR 0x0A \<notin> set l \<Longrightarrow> l = ''## '' @ g @ ''. '' @ t"
proof -
  let ?r = "drop 3 l"
  let ?r' = "dropWhile is_digit ?r"
  let ?u = "drop 2 ?r'"
  from assms have p: "take 3 l = ''## ''"
    by (auto simp: section_pattern_def split: if_splits)
  from assms p have d: "takeWhile is_digit ?r \<noteq> []" and q: "take 2 ?r' = ''. ''"
    by (auto simp: section_pattern_def Let_def split: if_splits)
  from assms p d q have g: "g = takeWhile is_digit ?r"
    and t: "t = takeWhile (\<lambda>c. c \<noteq> CHR 0x0A) ?u" and tn: "t \<noteq> []"
    by (auto simp: section_pattern_def Let_def split: if_splits)
  show "g \<noteq> []" using g d by simp
  show "\<forall>c\<in>set g. is_digit c" using g by (auto dest: set_takeWhileD)
  show "t \<noteq> []" by (rule tn)
  show "CHR 0x0A \<notin> set t" using t by (auto dest: set_takeWhileD)
  show "l = ''## '' @ g @ ''. '' @ t" if nl: "CHR 0x0A \<notin> set l"
  proof -
    have "set ?u \<subseteq> set l"
      by (meson set_drop_subset set_dropWhileD subset_iff subsetI)
    with nl have "takeWhile (\<lambda>c. c \<noteq> CHR 0x0A) ?u = ?u"
      by (intro takeWhile_no_nl) auto
    with t have tu: "t = ?u" by simp
    have "l = take 3 l @ ?r" by simp
    also have "?r = takeWhile is_digit ?r @ ?r'" by simp
    also have "?r' = take 2 ?r' @ ?u" by simp
    finally show ?thesis using p q g tu by simp
  qed
qed

lemma section_pattern_header:
  assumes "section_pattern l = Some (g, t)" and "CHR 0x0A \<notin> set l"
  shows "header_pattern l = Some (g, CHR '' '' # t)"
proof -
  from section_pattern_SomeD [OF assms(1)] assms(2)
  have l: "l = ''## '' @ g @ ''.'' @ (CHR '' '' # t)" and "g \<noteq> []" and "\<forall>c\<in>set g. is_digit c"
    by auto
  then show ?thesis using header_pattern_line [of g "CHR '' '' # t"] by simp
qed

lemma replace_header_section:
  assumes "section_pattern l = Some (g, t)" and "CHR 0x0A \<notin> set l"
  shows "replace_header l = heading_line (py_int g + 1) t"
  using section_pattern_header [OF assms]
  by (simp add: replace_header_def heading_line_def)

lemma replace_header_None: "header_pattern l = None \<Longrightarrow> replace_header l = l"
  by (simp add: replace_header_def)

lemma section_num_Some:
  "section_num l = Some n \<longleftrightarrow> (\<exists>g t. section_pattern l = Some (g, t) \<and> py_int g = n)"
  by (auto simp: section_num_def heading_of_def)

section \<open>The loop\<close>

lemma loop_body_inserted:
  "inserted st \<Longrightarrow>
   loop_body st l =
     (case section_pattern l of
        None \<Rightarrow> st\<lparr>new_lines := new_lines st @ [l]\<rparr>
      | Some (g, t) \<Rightarrow>
          st\<lparr>new_lines := new_lines st @ [heading_line (current_section_num st + 1) t],
             current_section_num := current_section_num st + 1\<rparr>)"
  by (auto simp: loop_body_def Let_def split: option.splits)

lemma loop_inserted:
  "inserted st \<Longrightarrow>
   new_lines (foldl loop_body st ls) = new_lines st @ renumber (current_section_num st) ls"
proof (induction ls arbitrary: st)
  case Nil
  show ?case by simp
next
  case (Cons l ls)
  show ?case
  proof (cases "section_pattern l")
    case None
    with Cons.prems have "loop_body st l = st\<lparr>new_lines := new_lines st @ [l]\<rparr>"
      by (simp add: loop_body_inserted)
    with Cons.IH [of "st\<lparr>new_lines := new_lines st @ [l]\<rparr>"] Cons.prems None
    show ?thesis by simp
  next
    case (Some a)
    obtain g t where a: "a = (g, t)" by (cases a)
    let ?st = "st\<lparr>new_lines := new_lines st @ [heading_line (current_section_num st + 1) t],
             current_section_num := current_section_num st + 1\<rparr>"
    from Cons.prems Some a have "loop_body st l = ?st"
      by (simp add: loop_body_inserted)
    with Cons.IH [of ?st] Cons.prems Some a show ?thesis by simp
  qed
qed

lemma loop_body_not_8:
  "\<not> inserted st \<Longrightarrow> section_num l \<noteq> Some 8 \<Longrightarrow>
   loop_body st l = st\<lparr>new_lines := new_lines st @ [l]\<rparr>"
  by (auto simp: loop_body_def section_num_def heading_of_def Let_def split: option.splits)

lemma loop_before:
  "\<not> inserted st \<Longrightarrow> \<forall>l\<in>set ls. section_num l \<noteq> Some 8 \<Longrightarrow>
   foldl loop_body st ls = st\<lparr>new_lines := new_lines st @ ls\<rparr>"
proof (induction ls arbitrary: st)
  case Nil
  show ?case by simp
next
  case (Cons l ls)
  from Cons.prems have "loop_body st l = st\<lparr>new_lines := new_lines st @ [l]\<rparr>"
    by (simp add: loop_body_not_8)
  with Cons.IH [of "st\<lparr>new_lines := new_lines st @ [l]\<rparr>"] Cons.prems
  show ?case by simp
qed

lemma loop_body_8:
  "\<not> inserted st \<Longrightarrow> section_pattern l = Some (g, t) \<Longrightarrow> py_int g = 8 \<Longrightarrow>
   loop_body st l =
     st\<lparr>new_lines := new_lines st @ [str_strip new_use_case, [], [], heading_line 9 t],
        inserted := True, current_section_num := 9\<rparr>"
  by (simp add: loop_body_def)

lemma update_specs_lines_insert:
  assumes "str_split content = pre @ h # post"
    and "\<forall>l\<in>set pre. section_num l \<noteq> Some 8"
    and "section_pattern h = Some (g, t)" and "py_int g = 8"
  shows "update_specs_lines content =
           pre @ [str_strip new_use_case, [], [], heading_line 9 t] @ renumber 9 post"
proof -
  let ?st = "loop_init\<lparr>new_lines := pre\<rparr>"
  let ?st' = "?st\<lparr>new_lines := pre @ [str_strip new_use_case, [], [], heading_line 9 t],
        inserted := True, current_section_num := 9\<rparr>"
  have "foldl loop_body loop_init pre = ?st"
    using loop_before [of loop_init pre] assms(2) by (simp add: loop_init_def)
  moreover have "loop_body ?st h = ?st'"
    using loop_body_8 [of ?st h g t] assms(3,4) by (simp add: loop_init_def)
  ultimately have "foldl loop_body loop_init (pre @ h # post) = foldl loop_body ?st' post"
    by simp
  then show ?thesis
    using loop_inserted [of ?st' post] assms(1) by (simp add: update_specs_lines_def)
qed

lemma update_specs_lines_same:
  "\<forall>l\<in>set (str_split content). section_num l \<noteq> Some 8 \<Longrightarrow>
   update_specs_lines content = str_split content"
  using loop_before [of loop_init "str_split content"]
  by (simp add: update_specs_lines_def loop_init_def)

lemma update_specs_same:
  "\<forall>l\<in>set (str_split content). section_num l \<noteq> Some 8 \<Longrightarrow> update_specs content = content"
  by (simp add: update_specs_def update_specs_lines_same)

section \<open>The two literals\<close>

lemma new_use_case_strip: "str_strip new_use_case = str_join (butlast new_use_case_lines)"
  by code_simp


lemma new_use_case_no_nl: "\<forall>l\<in>set (butlast new_use_case_lines). CHR 0x0A \<notin> set l"
  by code_simp

lemma new_use_case_headings:
  "List.map_filter heading_of (butlast new_use_case_lines) = [(8, ''Onboarding'')]"
  by code_simp

lemma new_section_no_nl: "\<forall>l\<in>set new_section_lines. CHR 0x0A \<notin> set l"
  by code_simp

lemma new_section_headings:
  "List.map_filter heading_of new_section_lines = [(18, ''Employer Onboarding'')]"
  by code_simp


lemma new_use_case_split: "str_split (str_strip new_use_case) = butlast new_use_case_lines"
proof -
  have "butlast new_use_case_lines \<noteq> []" by code_simp
  then show ?thesis
    by (simp add: new_use_case_strip str_split_join_lines new_use_case_no_nl)
qed

section \<open>Headings of joined lines\<close>

lemma map_filter_append:
  "List.map_filter f (xs @ ys) = List.map_filter f xs @ List.map_filter f ys"
  by (simp add: List.map_filter_def)

lemma map_filter_Cons_None: "f x = None \<Longrightarrow> List.map_filter f (x # xs) = List.map_filter f xs"
  by (simp add: List.map_filter_simps)

lemma map_filter_Cons_Some: "f x = Some y \<Longrightarrow> List.map_filter f (x # xs) = y # List.map_filter f xs"
  by (simp add: List.map_filter_simps)

lemma headings_join:
  "ls \<noteq> [] \<Longrightarrow> headings (str_join ls) = concat (map (\<lambda>l. List.map_filter heading_of (str_split l)) ls)"
  by (simp add: headings_def str_split_join List.map_filter_def filter_concat map_concat comp_def)


lemma heading_of_heading_line:
  "t \<noteq> [] \<Longrightarrow> CHR 0x0A \<notin> set t \<Longrightarrow> heading_of (heading_line n t) = Some (n, t)"
  by (simp add: heading_of_def section_pattern_heading_line)

lemma heading_line_no_nl: "CHR 0x0A \<notin> set t \<Longrightarrow> CHR 0x0A \<notin> set (heading_line n t)"
  by (auto simp: heading_line_def is_digit_def dest!: py_str_digits)

section \<open>The renumbered lines\<close>

lemma length_renumber [simp]: "length (renumber k ls) = length ls"
  by (induction ls arbitrary: k) (auto split: option.splits)

lemma renumber_no_nl:
  "\<forall>l\<in>set ls. CHR 0x0A \<notin> set l \<Longrightarrow> \<forall>l\<in>set (renumber k ls). CHR 0x0A \<notin> set l"
proof (induction ls arbitrary: k)
  case Nil
  show ?case by simp
next
  case (Cons l ls)
  show ?case
  proof (cases "section_pattern l")
    case None
    with Cons show ?thesis by simp
  next
    case (Some a)
    obtain g t where a: "a = (g, t)" by (cases a)
    from Some a have "CHR 0x0A \<notin> set t" by (auto dest: section_pattern_SomeD(4))
    with Cons Some a show ?thesis by (simp add: heading_line_no_nl)
  qed
qed

lemma renumber_headings:
  "List.map_filter heading_of (renumber k ls) =
   zip [k + 1 ..< k + 1 + length (List.map_filter heading_of ls)]
       (map snd (List.map_filter heading_of ls))"
proof (induction ls arbitrary: k)
  case Nil
  show ?case by (simp add: List.map_filter_simps)
next
  case (Cons l ls)
  show ?case
  proof (cases "section_pattern l")
    case None
    then have "heading_of l = None" by (simp add: heading_of_def)
    with None Cons show ?thesis by (simp add: map_filter_Cons_None)
  next
    case (Some a)
    obtain g t where a: "a = (g, t)" by (cases a)
    from Some a have t: "t \<noteq> []" "CHR 0x0A \<notin> set t"
      by (auto dest: section_pattern_SomeD(3,4))
    from Some a have h: "heading_of l = Some (py_int g, t)" by (simp add: heading_of_def)
    let ?m = "length (List.map_filter heading_of ls)"
    have "[k + 1 ..< k + 1 + Suc ?m] = (k + 1) # [k + 1 + 1 ..< k + 1 + 1 + ?m]"
      by (simp add: upt_rec)
    with Some a t h Cons [of "k + 1"] show ?thesis
      by (simp add: map_filter_Cons_Some heading_of_heading_line)
  qed
qed

lemma renumber_nth:
  "i < length ls \<Longrightarrow>
   renumber k ls ! i =
     (case section_pattern (ls ! i) of
        None \<Rightarrow> ls ! i
      | Some (g, t) \<Rightarrow>
          heading_line (k + 1 + length (filter (\<lambda>l. section_pattern l \<noteq> None) (take i ls))) t)"
proof (induction ls arbitrary: k i)
  case Nil
  then show ?case by simp
next
  case (Cons l ls)
  show ?case
  proof (cases i)
    case 0
    then show ?thesis by (auto split: option.splits)
  next
    case (Suc j)
    with Cons.prems have j: "j < length ls" by simp
    show ?thesis
    proof (cases "section_pattern l")
      case None
      with Suc Cons.IH [OF j, of k] show ?thesis
        by (cases "section_pattern (ls ! j)") auto
    next
      case (Some a)
      obtain g t where a: "a = (g, t)" by (cases a)
      with Some Suc Cons.IH [OF j, of "k + 1"] show ?thesis
        by (cases "section_pattern (ls ! j)") auto
    qed
  qed
qed

section \<open>The Employer Onboarding insertion\<close>

lemma search_18_None: "search_18 ls = None \<longleftrightarrow> (\<forall>l\<in>set ls. take 6 l \<noteq> ''## 18.'')"
  by (induction ls) auto

lemma search_18_first:
  "\<forall>l\<in>set pre. take 6 l \<noteq> ''## 18.'' \<Longrightarrow> take 6 h = ''## 18.'' \<Longrightarrow>
   search_18 (pre @ h # post) = Some (length (text_lines pre))"
  by (induction pre) auto

lemma text_lines_drop:
  assumes "str_split s = pre @ rest" and "rest \<noteq> []"
  shows "drop (length (text_lines pre)) s = str_join rest"
proof -
  have "s = str_join (pre @ rest)" using assms(1) str_join_split [of s] by simp
  also have "\<dots> = text_lines pre @ str_join rest" using assms(2) by (simp add: text_lines_join)
  finally show ?thesis by simp
qed

lemma update_specs_employer_insert:
  assumes "str_split content = pre @ h # post"
    and "\<forall>l\<in>set pre. take 6 l \<noteq> ''## 18.''" and "take 6 h = ''## 18.''"
  shows "update_specs_employer content =
           Inr (text_lines pre @ new_section @ str_join (map replace_header (h # post)))"
proof -
  have s: "re_search_18 content = Some (length (text_lines pre))"
    using assms by (simp add: re_search_18_def search_18_first)
  have t: "take (length (text_lines pre)) content = text_lines pre"
    using length_text_lines_take [OF assms(1)] by simp
  have d: "drop (length (text_lines pre)) content = str_join (h # post)"
    using text_lines_drop [OF assms(1)] by simp
  have "\<forall>l\<in>set (h # post). CHR 0x0A \<notin> set l"
    using str_split_no_nl [of _ content] assms(1) by auto
  then have "str_split (str_join (h # post)) = h # post"
    by (intro str_split_join_lines) auto
  then have "re_sub_headers (str_join (h # post)) = str_join (map replace_header (h # post))"
    by (simp add: re_sub_headers_def)
  with s t d show ?thesis
    by (simp add: update_specs_employer_def)
qed

lemma update_specs_employer_fail:
  "update_specs_employer content = Inl e \<longleftrightarrow>
     e = SystemExit 1 \<and> (\<forall>l\<in>set (str_split content). take 6 l \<noteq> ''## 18.'')"
proof (cases "re_search_18 content")
  case None
  then show ?thesis
    using search_18_None [of "str_split content"]
    by (auto simp: update_specs_employer_def re_search_18_def)
next
  case (Some i)
  then show ?thesis
    using search_18_None [of "str_split content"]
    by (auto simp: update_specs_employer_def re_search_18_def Let_def)
qed

lemma replace_header_no_nl:
  assumes "CHR 0x0A \<notin> set l"
  shows "CHR 0x0A \<notin> set (replace_header l)"
proof (cases "header_pattern l")
  case None
  with assms show ?thesis by (simp add: replace_header_def)
next
  case (Some a)
  obtain g r where a: "a = (g, r)" by (cases a)
  from Some a have "r = drop 1 (dropWhile is_digit (drop 3 l))"
    by (auto simp: header_pattern_def Let_def split: if_splits)
  then have "set r \<subseteq> set l"
    by (metis (no_types, lifting) set_drop_subset set_dropWhileD subset_iff subsetI)
  with assms Some a show ?thesis
    by (auto simp: replace_header_def is_digit_def dest!: py_str_digits)
qed

section \<open>Numbered runs\<close>

lemma upt_split:
  assumes "xs @ k # ys = [a..<b]"
  shows "xs = [a..<k]" and "ys = [Suc k..<b]" and "a \<le> k" and "k < b"
proof -
  let ?n = "length xs"
  have len: "length xs + Suc (length ys) = b - a"
    using arg_cong [OF assms, of length] by simp
  then have lt: "?n < b - a" by simp
  have "[a..<b] ! ?n = k" using assms [symmetric] by simp
  with lt have k: "k = a + ?n" by simp
  have "xs = take ?n [a..<b]" using assms [symmetric] by simp
  also have "\<dots> = [a..<k]" using lt k by (simp add: take_upt)
  finally show "xs = [a..<k]" .
  have "ys = drop (Suc ?n) [a..<b]" using assms [symmetric] by simp
  also have "\<dots> = [Suc k..<b]" using k by (simp add: drop_upt)
  finally show "ys = [Suc k..<b]" .
  show "a \<le> k" using k by simp
  show "k < b" using k lt by simp
qed

section \<open>Headings of the two outputs\<close>

lemma heading_of_Nil [simp]: "heading_of [] = None"
  by (simp add: heading_of_def section_pattern_def)

lemma headings_of_lines:
  "\<forall>l\<in>set ls. CHR 0x0A \<notin> set l \<Longrightarrow>
   concat (map (\<lambda>l. List.map_filter heading_of (str_split l)) ls) = List.map_filter heading_of ls"
  by (induction ls) (auto simp: str_split_line List.map_filter_simps split: option.splits)

lemma first_section_8:
  assumes "8 \<in> set (map fst (headings content))"
  obtains pre h post g t where "str_split content = pre @ h # post"
    and "\<forall>l\<in>set pre. section_num l \<noteq> Some 8"
    and "section_pattern h = Some (g, t)" and "py_int g = 8"
proof -
  from assms have "\<exists>l\<in>set (str_split content). section_num l = Some 8"
    by (force simp: headings_def List.map_filter_def section_num_def)
  then obtain pre h post where "str_split content = pre @ h # post"
    and "section_num h = Some 8" and "\<forall>l\<in>set pre. section_num l \<noteq> Some 8"
    using split_list_first_prop [of "str_split content" "\<lambda>l. section_num l = Some 8"]
    by blast
  then show ?thesis using that by (auto simp: section_num_Some)
qed

lemma update_specs_headings:
  assumes "str_split content = pre @ h # post"
    and "\<forall>l\<in>set pre. section_num l \<noteq> Some 8"
    and "section_pattern h = Some (g, t)" and "py_int g = 8"
  shows "headings (update_specs content) =
           List.map_filter heading_of pre @ [(8, ''Onboarding''), (9, t)] @
           zip [10 ..< 10 + length (List.map_filter heading_of post)]
               (map snd (List.map_filter heading_of post))"
proof -
  have nl: "\<forall>l\<in>set (pre @ h # post). CHR 0x0A \<notin> set l"
    using str_split_no_nl [of _ content] assms(1) by auto
  have t: "t \<noteq> []" "CHR 0x0A \<notin> set t"
    using section_pattern_SomeD(3,4) [OF assms(3)] by auto
  let ?tail = "heading_line 9 t # renumber 9 post"
  have tail_nl: "\<forall>l\<in>set ?tail. CHR 0x0A \<notin> set l"
    using renumber_no_nl [of post 9] nl t by (auto simp: heading_line_no_nl)
  have "update_specs content = str_join (pre @ [str_strip new_use_case, [], []] @ ?tail)"
    using update_specs_lines_insert [OF assms] by (simp add: update_specs_def)
  then have "headings (update_specs content) =
      concat (map (\<lambda>l. List.map_filter heading_of (str_split l)) pre) @
      List.map_filter heading_of (str_split (str_strip new_use_case)) @
      concat (map (\<lambda>l. List.map_filter heading_of (str_split l)) ?tail)"
    by (simp add: headings_join List.map_filter_simps del: renumber.simps)
  also have "concat (map (\<lambda>l. List.map_filter heading_of (str_split l)) pre) =
      List.map_filter heading_of pre"
    using nl by (intro headings_of_lines) auto
  also have "concat (map (\<lambda>l. List.map_filter heading_of (str_split l)) ?tail) =
      List.map_filter heading_of ?tail"
    using tail_nl by (rule headings_of_lines)
  also have "List.map_filter heading_of ?tail =
      (9, t) # zip [10 ..< 10 + length (List.map_filter heading_of post)]
               (map snd (List.map_filter heading_of post))"
    using t renumber_headings [of 9 post]
    by (simp add: map_filter_Cons_Some heading_of_heading_line)
  finally show ?thesis
    by (simp add: new_use_case_split new_use_case_headings)
qed

lemma headings_decompose:
  assumes "str_split content = pre @ h # post"
  shows "headings content =
           List.map_filter heading_of pre @ List.map_filter heading_of [h] @
           List.map_filter heading_of post"
  using assms map_filter_append [of heading_of pre "h # post"]
    map_filter_append [of heading_of "[h]" post]
  by (simp add: headings_def)

lemma upt_join: "a \<le> k \<Longrightarrow> k < b \<Longrightarrow> [a..<b] = [a..<k] @ k # [Suc k..<b]"
  using upt_add_eq_append [of a k "b - k"] upt_conv_Cons [of k b] by simp

lemma renumbered_run:
  assumes "1 \<le> k" and "k \<le> N"
  shows "[1..<k] @ [k, Suc k] @ [Suc (Suc k) ..< Suc (Suc k) + (N - k)] = [1 ..< N + 2]"
proof -
  have e: "Suc (Suc k) + (N - k) = N + 2"
    using assms by simp
  have "[1 ..< N + 2] = [1..<k] @ k # [Suc k ..< N + 2]"
    using assms by (intro upt_join) auto
  moreover have "[Suc k ..< N + 2] = Suc k # [Suc (Suc k) ..< N + 2]"
    using assms by (intro upt_conv_Cons) auto
  ultimately show ?thesis
    by (simp only: e append_Cons append_Nil)
qed

lemma update_specs_numbers:
  assumes wf: "map fst (headings content) = [1 ..< N + 1]" and N: "8 \<le> N"
  shows "map fst (headings (update_specs content)) = [1 ..< N + 2]"
proof -
  from N have "8 \<in> set [1 ..< N + 1]" by auto
  then have "8 \<in> set (map fst (headings content))" by (simp only: wf)
  then obtain pre h post g t where split: "str_split content = pre @ h # post"
    and pre: "\<forall>l\<in>set pre. section_num l \<noteq> Some 8"
    and h: "section_pattern h = Some (g, t)" and g: "py_int g = 8"
    by (rule first_section_8)
  let ?hp = "List.map_filter heading_of pre" and ?hq = "List.map_filter heading_of post"
  from h g have "List.map_filter heading_of [h] = [(8, t)]"
    by (simp add: List.map_filter_simps heading_of_def)
  with headings_decompose [OF split] wf
  have "map fst ?hp @ 8 # map fst ?hq = [1 ..< N + 1]" by simp
  from upt_split(1,2) [OF this] have p: "map fst ?hp = [1 ..< 8]" and q: "map fst ?hq = [9 ..< N + 1]"
    by simp_all
  have "length (map fst ?hq) = length [9 ..< N + 1]" by (simp only: q)
  then have m: "length ?hq = N - 8" by (simp del: upt_Suc)
  have "map fst (headings (update_specs content)) =
      map fst ?hp @ [8, 9] @ [10 ..< 10 + length ?hq]"
    using update_specs_headings [OF split pre h g] by simp
  also have "\<dots> = [1 ..< N + 2]"
    using renumbered_run [of 8 N] N m by (simp add: p del: upt_Suc)
  finally show ?thesis .
qed

lemma replace_header_headings:
  assumes "\<forall>l\<in>set ls. CHR 0x0A \<notin> set l"
    and "\<forall>l\<in>set ls. header_pattern l \<noteq> None \<longrightarrow> section_pattern l \<noteq> None"
  shows "List.map_filter heading_of (map replace_header ls) =
           map (\<lambda>(n, t). (Suc n, t)) (List.map_filter heading_of ls)"
  using assms
proof (induction ls)
  case Nil
  show ?case by (simp add: List.map_filter_simps)
next
  case (Cons l ls)
  then have IH: "List.map_filter heading_of (map replace_header ls) =
           map (\<lambda>(n, t). (Suc n, t)) (List.map_filter heading_of ls)"
    by simp
  from Cons.prems have nl: "CHR 0x0A \<notin> set l" by simp
  show ?case
  proof (cases "section_pattern l")
    case None
    with Cons.prems have "header_pattern l = None"
      by (cases "header_pattern l") auto
    then have "replace_header l = l" by (rule replace_header_None)
    moreover from None have "heading_of l = None" by (simp add: heading_of_def)
    ultimately show ?thesis using IH by (simp add: map_filter_Cons_None)
  next
    case (Some a)
    obtain g t where a: "a = (g, t)" by (cases a)
    from Some a have t: "t \<noteq> []" "CHR 0x0A \<notin> set t"
      by (auto dest: section_pattern_SomeD(3,4))
    from Some a nl have "replace_header l = heading_line (py_int g + 1) t"
      by (simp add: replace_header_section)
    with t have "heading_of (replace_header l) = Some (Suc (py_int g), t)"
      by (simp add: heading_of_heading_line)
    moreover from Some a have "heading_of l = Some (py_int g, t)"
      by (simp add: heading_of_def)
    ultimately show ?thesis using IH by (simp add: map_filter_Cons_Some)
  qed
qed

lemma header_pattern_18:
  assumes "take 6 h = ''## 18.''"
  shows "header_pattern h = Some (''18'', drop 6 h)"
proof -
  have "h = ''## '' @ ''18'' @ ''.'' @ drop 6 h"
    using append_take_drop_id [of 6 h] assms by simp
  moreover have "header_pattern (''## '' @ ''18'' @ ''.'' @ drop 6 h) = Some (''18'', drop 6 h)"
    by (rule header_pattern_line) (auto simp: is_digit_def)
  ultimately show ?thesis by simp
qed

lemma py_int_18: "py_int ''18'' = 18"
  by (simp add: py_int_def digit_val_def)

lemma update_specs_employer_headings:
  assumes split: "str_split content = pre @ h # post"
    and pre: "\<forall>l\<in>set pre. take 6 l \<noteq> ''## 18.''" and h: "take 6 h = ''## 18.''"
    and titled: "\<forall>l\<in>set (str_split content). header_pattern l \<noteq> None \<longrightarrow> section_pattern l \<noteq> None"
  shows "\<exists>out. update_specs_employer content = Inr out \<and>
           headings out =
             List.map_filter heading_of pre @ [(18, ''Employer Onboarding'')] @
             map (\<lambda>(n, t). (Suc n, t)) (List.map_filter heading_of (h # post))"
proof -
  let ?tail = "map replace_header (h # post)"
  let ?out = "text_lines pre @ new_section @ str_join ?tail"
  have nl: "\<forall>l\<in>set (pre @ h # post). CHR 0x0A \<notin> set l"
    using str_split_no_nl [of _ content] split by auto
  then have tail_nl: "\<forall>l\<in>set ?tail. CHR 0x0A \<notin> set l"
    by (auto simp: replace_header_no_nl)
  have "?out = str_join ((pre @ new_section_lines) @ ?tail)"
    by (simp add: new_section_def text_lines_join [symmetric])
  moreover have "\<forall>l\<in>set ((pre @ new_section_lines) @ ?tail). CHR 0x0A \<notin> set l"
    using nl tail_nl new_section_no_nl by auto
  ultimately have "str_split ?out = (pre @ new_section_lines) @ ?tail"
    by (simp add: str_split_join_lines)
  then have "headings ?out =
      List.map_filter heading_of pre @ List.map_filter heading_of new_section_lines @
      List.map_filter heading_of ?tail"
    by (simp add: headings_def map_filter_append)
  moreover have "List.map_filter heading_of ?tail =
      map (\<lambda>(n, t). (Suc n, t)) (List.map_filter heading_of (h # post))"
    using nl titled split by (intro replace_header_headings) auto
  ultimately have "headings ?out =
      List.map_filter heading_of pre @ [(18, ''Employer Onboarding'')] @
      map (\<lambda>(n, t). (Suc n, t)) (List.map_filter heading_of (h # post))"
    by (simp add: new_section_headings)
  then show ?thesis
    using update_specs_employer_insert [OF split pre h] by simp
qed

lemma first_line_18:
  assumes "\<exists>l\<in>set (str_split content). take 6 l = ''## 18.''"
  obtains pre h post where "str_split content = pre @ h # post"
    and "\<forall>l\<in>set pre. take 6 l \<noteq> ''## 18.''" and "take 6 h = ''## 18.''"
  using split_list_first_prop [OF assms] by blast

lemma update_specs_employer_numbers:
  assumes wf: "map fst (headings content) = [1 ..< N + 1]"
    and titled: "\<forall>l\<in>set (str_split content). header_pattern l \<noteq> None \<longrightarrow> section_pattern l \<noteq> None"
    and found: "\<exists>l\<in>set (str_split content). take 6 l = ''## 18.''"
  shows "\<exists>out. update_specs_employer content = Inr out \<and>
           map fst (headings out) = [1 ..< N + 2]"
proof -
  from found obtain pre h post where split: "str_split content = pre @ h # post"
    and pre: "\<forall>l\<in>set pre. take 6 l \<noteq> ''## 18.''" and h: "take 6 h = ''## 18.''"
    by (rule first_line_18)
  have nl: "CHR 0x0A \<notin> set h"
    using str_split_no_nl [of h content] split by simp
  have hp: "header_pattern h = Some (''18'', drop 6 h)"
    using h by (rule header_pattern_18)
  with titled split obtain g t where sp: "section_pattern h = Some (g, t)"
    by fastforce
  from section_pattern_header [OF sp nl] hp have "g = ''18''" by simp
  with sp have hh: "heading_of h = Some (18, t)"
    by (simp add: heading_of_def py_int_18)
  let ?hp = "List.map_filter heading_of pre" and ?hq = "List.map_filter heading_of post"
  from hh have hq: "List.map_filter heading_of (h # post) = (18, t) # ?hq"
    by (simp add: map_filter_Cons_Some)
  from hh have "List.map_filter heading_of [h] = [(18, t)]"
    by (simp add: List.map_filter_simps)
  with headings_decompose [OF split] wf
  have "map fst ?hp @ 18 # map fst ?hq = [1 ..< N + 1]" by simp
  from upt_split [OF this]
  have p: "map fst ?hp = [1 ..< 18]" and q: "map fst ?hq = [Suc 18 ..< N + 1]" and N: "18 < N + 1"
    by simp_all
  from update_specs_employer_headings [OF split pre h titled]
  obtain out where out: "update_specs_employer content = Inr out"
    and "headings out = ?hp @ [(18, ''Employer Onboarding'')] @
             map (\<lambda>(n, t). (Suc n, t)) (List.map_filter heading_of (h # post))"
    by blast
  then have "map fst (headings out) = map fst ?hp @ [18, Suc 18] @ map Suc (map fst ?hq)"
    unfolding hq by (simp add: comp_def case_prod_unfold)
  also have "\<dots> = [1 ..< 18] @ [18, Suc 18] @ [Suc (Suc 18) ..< Suc (Suc 18) + (N - 18)]"
  proof -
    have "Suc (N + 1) = Suc (Suc 18) + (N - 18)" using N by simp
    then show ?thesis by (simp only: p q map_Suc_upt)
  qed
  also have "\<dots> = [1 ..< N + 2]"
    using N by (intro renumbered_run) auto
  finally show ?thesis using out by blast
qed

section \<open>Lines that are kept\<close>

lemma section_num_in_headings:
  "l \<in> set (str_split content) \<Longrightarrow> section_num l = Some n \<Longrightarrow>
   n \<in> set (map fst (headings content))"
  by (force simp: headings_def List.map_filter_def section_num_def)




lemma header_pattern_None_18: "header_pattern l = None \<Longrightarrow> take 6 l \<noteq> ''## 18.''"
  using header_pattern_18 [of l] by auto

lemma section_pattern_None_num: "section_pattern l = None \<Longrightarrow> section_num l \<noteq> Some 8"
  by (simp add: section_num_def heading_of_def)

section \<open>The lines from the insertion point on\<close>

lemma update_specs_lines_tail:
  assumes "str_split content = pre @ h # post"
    and "\<forall>l\<in>set pre. section_num l \<noteq> Some 8"
    and "section_pattern h = Some (g, t)" and "py_int g = 8"
  shows "update_specs_lines content =
           pre @ [str_strip new_use_case, [], []] @ renumber 8 (h # post)"
  using update_specs_lines_insert [OF assms] assms(3) by simp

lemma renumber_nth_8:
  "i \<le> length post \<Longrightarrow>
   renumber 8 (h # post) ! i =
     (case section_pattern ((h # post) ! i) of
        None \<Rightarrow> (h # post) ! i
      | Some (g, t) \<Rightarrow>
          heading_line (9 + length (filter (\<lambda>l. section_pattern l \<noteq> None) (take i (h # post)))) t)"
proof -
  assume "i \<le> length post"
  then have "i < length (h # post)" by simp
  from renumber_nth [OF this, of 8] show ?thesis
    by (simp only: numeral_plus_one semiring_norm)
qed

lemma replace_header_Some:
  "header_pattern l = Some (g, r) \<Longrightarrow> replace_header l = ''## '' @ py_str (py_int g + 1) @ ''.'' @ r"
  by (simp add: replace_header_def)

section \<open>Where the new section stands\<close>












lemma replace_header_digits:
  "ds \<noteq> [] \<Longrightarrow> \<forall>c\<in>set ds. is_digit c \<Longrightarrow>
   replace_header (''## '' @ ds @ ''.'' @ rest) = ''## '' @ py_str (py_int ds + 1) @ ''.'' @ rest"
  using header_pattern_line [of ds rest] by (simp add: replace_header_def)

section \<open>When the Employer Onboarding insertion changes the text\<close>

lemma new_section_starts_nl: "new_section \<noteq> [] \<and> hd new_section = CHR 0x0A"
  by code_simp

lemma update_specs_employer_changes:
  assumes "update_specs_employer content = Inr out"
  shows "out \<noteq> content"
proof
  assume eq: "out = content"
  from assms have "\<exists>l\<in>set (str_split content). take 6 l = ''## 18.''"
    using update_specs_employer_fail [of content "SystemExit 1"] by auto
  then obtain pre h post where split: "str_split content = pre @ h # post"
    and pre: "\<forall>l\<in>set pre. take 6 l \<noteq> ''## 18.''" and h: "take 6 h = ''## 18.''"
    by (rule first_line_18)
  have h': "h = ''## 18.'' @ drop 6 h"
    using append_take_drop_id [of 6 h] h by simp
  have "content = str_join (pre @ h # post)"
    using split str_join_split [of content] by simp
  also have "\<dots> = text_lines pre @ str_join (h # post)"
    by (simp add: text_lines_join)
  finally have c: "content = text_lines pre @ str_join (h # post)" .
  have "out = text_lines pre @ new_section @ str_join (map replace_header (h # post))"
    using update_specs_employer_insert [OF split pre h] assms by simp
  with eq c have "new_section @ str_join (map replace_header (h # post)) = str_join (h # post)"
    by simp
  then have "hd (new_section @ str_join (map replace_header (h # post))) =
      hd (str_join (h # post))"
    by simp
  moreover have "hd (new_section @ str_join (map replace_header (h # post))) = CHR 0x0A"
    using new_section_starts_nl by simp
  moreover have "hd (str_join (h # post)) = CHR ''#''"
    by (subst h') (cases post; simp)
  ultimately show False by simp
qed

section \<open>The claims\<close>

text \<open>
  Claim C1, as the code has it. The claim lets the target be any position from 1 to
  \<open>N + 1\<close>; the scripts have one fixed target each (8 and 18) and insert only in front
  of an existing heading. For a document whose headings are numbered \<open>1, \<dots>, N\<close>:
  if \<open>8 \<le> N\<close>, the text written by \<^verbatim>\<open>update_specs.py\<close> has the headings
  \<open>1, \<dots>, N + 1\<close>, in order; if every line that starts with \<^verbatim>\<open>## <digits>.\<close> is a heading
  line and some line starts with \<^verbatim>\<open>## 18.\<close>, \<^verbatim>\<open>update_specs_employer.py\<close> succeeds and
  its text has the headings \<open>1, \<dots>, N + 1\<close>, in order.
\<close>

theorem insert_numbering:
  assumes wf: "map fst (headings content) = [1 ..< N + 1]"
  shows "(8 \<le> N \<longrightarrow> map fst (headings (update_specs content)) = [1 ..< N + 2]) \<and>
         ((\<forall>l\<in>set (str_split content). header_pattern l \<noteq> None \<longrightarrow> section_pattern l \<noteq> None) \<and>
          (\<exists>l\<in>set (str_split content). take 6 l = ''## 18.'') \<longrightarrow>
          (\<exists>out. update_specs_employer content = Inr out \<and>
                 map fst (headings out) = [1 ..< N + 2]))"
  using update_specs_numbers [OF wf] update_specs_employer_numbers [OF wf] by blast

theorem insert_numbering_witness:
  "map fst (headings sections_1_to_19) = [1 ..< 19 + 1] \<and>
   map fst (headings (update_specs sections_1_to_19)) = [1 ..< 19 + 2] \<and>
   (\<exists>out. update_specs_employer sections_1_to_19 = Inr out \<and>
          map fst (headings out) = [1 ..< 19 + 2])"
proof -
  have wf: "map fst (headings sections_1_to_19) = [1 ..< 19 + 1]"
    by code_simp
  have titled: "\<forall>l\<in>set (str_split sections_1_to_19).
      header_pattern l \<noteq> None \<longrightarrow> section_pattern l \<noteq> None"
    by code_simp
  have found: "\<exists>l\<in>set (str_split sections_1_to_19). take 6 l = ''## 18.''"
    by code_simp
  have "(8::nat) \<le> 19" by simp
  with insert_numbering [OF wf] titled found wf show ?thesis
    by blast
qed

theorem insert_numbering_counterexample:
  "map fst (headings sections_1_to_7) = [1 ..< 7 + 1] \<and>
   map fst (headings (update_specs sections_1_to_7)) \<noteq> [1 ..< 7 + 2] \<and>
   map fst (headings sections_1_to_17) = [1 ..< 17 + 1] \<and>
   update_specs_employer sections_1_to_17 = Inl (SystemExit 1)"
  by code_simp

text \<open>
  Claim C2, as the code has it. Neither script checks the numbering or knows the errors
  \<^verbatim>\<open>OutOfRange\<close> and \<^verbatim>\<open>MalformedDocument\<close>. \<^verbatim>\<open>update_specs.py\<close> always ends with status
  0, and when no heading has the number 8 it writes the text back unchanged.
  \<^verbatim>\<open>update_specs_employer.py\<close> ends with status 1 exactly when no line starts with
  \<^verbatim>\<open>## 18.\<close>, and with status 0 otherwise.
\<close>

theorem error_behaviour:
  "fst (update_specs_main w) = 0 \<and>
   ((\<forall>l\<in>set (str_split (file_content w)). section_num l \<noteq> Some 8) \<longrightarrow>
      file_content (snd (update_specs_main w)) = file_content w) \<and>
   fst (update_specs_employer_main w) =
     (if \<forall>l\<in>set (str_split (file_content w)). take 6 l \<noteq> ''## 18.'' then 1 else 0)"
proof -
  have "fst (update_specs_employer_main w) =
     (if \<forall>l\<in>set (str_split (file_content w)). take 6 l \<noteq> ''## 18.'' then 1 else 0)"
  proof (cases "update_specs_employer (file_content w)")
    case (Inl e)
    then show ?thesis
      using update_specs_employer_fail [of "file_content w" e]
      by (simp add: update_specs_employer_main_def)
  next
    case (Inr out)
    then have "\<not> (\<forall>l\<in>set (str_split (file_content w)). take 6 l \<noteq> ''## 18.'')"
      using update_specs_employer_fail [of "file_content w" "SystemExit 1"] by auto
    with Inr show ?thesis
      by (simp add: update_specs_employer_main_def)
  qed
  then show ?thesis
    by (simp add: update_specs_main_def update_specs_same)
qed

theorem error_behaviour_witness:
  "fst (update_specs_main \<lparr>file_content = sections_1_to_6, stdout = []\<rparr>) = 0 \<and>
   file_content (snd (update_specs_main \<lparr>file_content = sections_1_to_6, stdout = []\<rparr>)) =
     sections_1_to_6 \<and>
   fst (update_specs_employer_main \<lparr>file_content = sections_1_to_6, stdout = []\<rparr>) = 1"
proof -
  have a: "\<forall>l\<in>set (str_split sections_1_to_6). section_num l \<noteq> Some 8"
    by code_simp
  have b: "\<forall>l\<in>set (str_split sections_1_to_6). take 6 l \<noteq> ''## 18.''"
    by code_simp
  from error_behaviour [of "\<lparr>file_content = sections_1_to_6, stdout = []\<rparr>"] a b
  show ?thesis by simp
qed

theorem error_behaviour_counterexample:
  "map fst (headings sections_1_to_6) = [1 ..< 6 + 1] \<and>
   update_specs_main \<lparr>file_content = sections_1_to_6, stdout = []\<rparr> =
     (0, \<lparr>file_content = sections_1_to_6,
          stdout = [''Successfully updated use-case-specifications.md'']\<rparr>) \<and>
   map fst (headings ''## 1. a\<newline>## 2. b\<newline>## 4. c\<newline>## 8. d\<newline>## 8. e'') = [1, 2, 4, 8, 8] \<and>
   update_specs_main
       \<lparr>file_content = ''## 1. a\<newline>## 2. b\<newline>## 4. c\<newline>## 8. d\<newline>## 8. e'', stdout = []\<rparr> =
     (0, \<lparr>file_content =
            str_join [''## 1. a'', ''## 2. b'', ''## 4. c'', str_strip new_use_case, '''', '''',
                      ''## 9. d'', ''## 10. e''],
          stdout = [''Successfully updated use-case-specifications.md'']\<rparr>) \<and>
   map fst (headings ''## 1. a\<newline>## 2. b\<newline>## 4. c\<newline>## 18. d\<newline>## 18. e'') = [1, 2, 4, 18, 18] \<and>
   update_specs_employer_main
       \<lparr>file_content = ''## 1. a\<newline>## 2. b\<newline>## 4. c\<newline>## 18. d\<newline>## 18. e'', stdout = []\<rparr> =
     (0, \<lparr>file_content =
            ''## 1. a\<newline>## 2. b\<newline>## 4. c\<newline>'' @ new_section @ ''## 19. d\<newline>## 19. e'',
          stdout = [''Successfully inserted Employer Onboarding and renumbered sections.'']\<rparr>)"
  by code_simp

text \<open>
  Claim C3, as the code has it. For a document whose headings are numbered 1 to 7 the
  Onboarding insertion returns the text unchanged: there is no heading 8 to insert in
  front of, so nothing is appended and the sections 1 to 7 stay as they are.
\<close>

theorem append_unchanged:
  assumes "map fst (headings content) = [1 ..< 7 + 1]"
  shows "update_specs content = content"
proof (rule update_specs_same)
  show "\<forall>l\<in>set (str_split content). section_num l \<noteq> Some 8"
  proof
    fix l assume l: "l \<in> set (str_split content)"
    show "section_num l \<noteq> Some 8"
    proof
      assume "section_num l = Some 8"
      with l have "8 \<in> set (map fst (headings content))"
        by (rule section_num_in_headings)
      with assms show False by simp
    qed
  qed
qed

theorem append_unchanged_witness:
  "map fst (headings sections_1_to_7) = [1 ..< 7 + 1] \<and>
   update_specs sections_1_to_7 = sections_1_to_7"
proof -
  have wf: "map fst (headings sections_1_to_7) = [1 ..< 7 + 1]" by code_simp
  from wf append_unchanged [OF wf] show ?thesis by (rule conjI)
qed

theorem append_counterexample:
  "map fst (headings sections_1_to_7) = [1, 2, 3, 4, 5, 6, 7] \<and>
   length (headings (update_specs sections_1_to_7)) = 7 \<and>
   (8, ''Onboarding'') \<notin> set (headings (update_specs sections_1_to_7))"
  by code_simp

text \<open>
  Claim C4, as the code has it. The scripts know no difference between a heading and a
  line of a body that looks like one: a line is a heading when it matches the pattern at
  its start. Let \<open>h\<close> be the line in front of which the new section goes, \<open>pre\<close> the lines
  before it and \<open>post\<close> the lines after it. The lines of \<open>pre\<close> are written back unchanged,
  whether they match or not. Of \<open>h # post\<close>, a line that does not match the pattern is
  written back unchanged, and every line that matches is rewritten as a heading:
  by \<^verbatim>\<open>update_specs.py\<close> with a new number and its own title, by
  \<^verbatim>\<open>update_specs_employer.py\<close> with its number plus one.
\<close>

theorem heading_like_lines:
  assumes "str_split content = pre @ h # post"
  shows "((\<forall>l\<in>set pre. section_num l \<noteq> Some 8) \<and> section_num h = Some 8 \<longrightarrow>
          (\<exists>tail.
             update_specs_lines content = pre @ [str_strip new_use_case, [], []] @ tail \<and>
             length tail = Suc (length post) \<and>
             (\<forall>i \<le> length post.
                (section_pattern ((h # post) ! i) = None \<longrightarrow> tail ! i = (h # post) ! i) \<and>
                (\<forall>g t. section_pattern ((h # post) ! i) = Some (g, t) \<longrightarrow>
                   (\<exists>n. tail ! i = heading_line n t))))) \<and>
         ((\<forall>l\<in>set pre. take 6 l \<noteq> ''## 18.'') \<and> take 6 h = ''## 18.'' \<longrightarrow>
          (\<exists>tail.
             update_specs_employer content =
               Inr (text_lines pre @ new_section @ str_join tail) \<and>
             length tail = Suc (length post) \<and>
             (\<forall>i \<le> length post.
                (header_pattern ((h # post) ! i) = None \<longrightarrow> tail ! i = (h # post) ! i) \<and>
                (\<forall>g r. header_pattern ((h # post) ! i) = Some (g, r) \<longrightarrow>
                   tail ! i = ''## '' @ py_str (py_int g + 1) @ ''.'' @ r))))"
proof (intro conjI impI)
  assume a: "(\<forall>l\<in>set pre. section_num l \<noteq> Some 8) \<and> section_num h = Some 8"
  then obtain g t where h: "section_pattern h = Some (g, t)" and g: "py_int g = 8"
    by (auto simp: section_num_Some)
  have "update_specs_lines content =
          pre @ [str_strip new_use_case, [], []] @ renumber 8 (h # post)"
    using assms a h g by (intro update_specs_lines_tail) auto
  moreover have "length (renumber 8 (h # post)) = Suc (length post)"
    by (simp only: length_renumber length_Cons)
  moreover have "\<forall>i \<le> length post.
      (section_pattern ((h # post) ! i) = None \<longrightarrow> renumber 8 (h # post) ! i = (h # post) ! i) \<and>
      (\<forall>g t. section_pattern ((h # post) ! i) = Some (g, t) \<longrightarrow>
         (\<exists>n. renumber 8 (h # post) ! i = heading_line n t))"
  proof (intro allI impI conjI)
    fix i assume "i \<le> length post" and "section_pattern ((h # post) ! i) = None"
    then show "renumber 8 (h # post) ! i = (h # post) ! i"
      by (simp only: renumber_nth_8 option.case)
  next
    fix i g' t' assume "i \<le> length post" and "section_pattern ((h # post) ! i) = Some (g', t')"
    then show "\<exists>n. renumber 8 (h # post) ! i = heading_line n t'"
      by (simp only: renumber_nth_8 option.case prod.case) blast
  qed
  ultimately show "\<exists>tail.
             update_specs_lines content = pre @ [str_strip new_use_case, [], []] @ tail \<and>
             length tail = Suc (length post) \<and>
             (\<forall>i \<le> length post.
                (section_pattern ((h # post) ! i) = None \<longrightarrow> tail ! i = (h # post) ! i) \<and>
                (\<forall>g t. section_pattern ((h # post) ! i) = Some (g, t) \<longrightarrow>
                   (\<exists>n. tail ! i = heading_line n t)))"
    by blast
next
  assume a: "(\<forall>l\<in>set pre. take 6 l \<noteq> ''## 18.'') \<and> take 6 h = ''## 18.''"
  let ?tail = "map replace_header (h # post)"
  have "update_specs_employer content = Inr (text_lines pre @ new_section @ str_join ?tail)"
    using assms a by (intro update_specs_employer_insert) auto
  moreover have "length ?tail = Suc (length post)" by simp
  moreover have "\<forall>i \<le> length post.
      (header_pattern ((h # post) ! i) = None \<longrightarrow> ?tail ! i = (h # post) ! i) \<and>
      (\<forall>g r. header_pattern ((h # post) ! i) = Some (g, r) \<longrightarrow>
         ?tail ! i = ''## '' @ py_str (py_int g + 1) @ ''.'' @ r)"
  proof (intro allI impI conjI)
    fix i assume "i \<le> length post" and "header_pattern ((h # post) ! i) = None"
    then show "?tail ! i = (h # post) ! i"
      using nth_map [of i "h # post" replace_header] by (simp add: replace_header_None)
  next
    fix i g r assume "i \<le> length post" and "header_pattern ((h # post) ! i) = Some (g, r)"
    then show "?tail ! i = ''## '' @ py_str (py_int g + 1) @ ''.'' @ r"
      using nth_map [of i "h # post" replace_header] by (simp add: replace_header_Some)
  qed
  ultimately show "\<exists>tail.
             update_specs_employer content =
               Inr (text_lines pre @ new_section @ str_join tail) \<and>
             length tail = Suc (length post) \<and>
             (\<forall>i \<le> length post.
                (header_pattern ((h # post) ! i) = None \<longrightarrow> tail ! i = (h # post) ! i) \<and>
                (\<forall>g r. header_pattern ((h # post) ! i) = Some (g, r) \<longrightarrow>
                   tail ! i = ''## '' @ py_str (py_int g + 1) @ ''.'' @ r))"
    by blast
qed

theorem heading_like_lines_witness:
  "str_split example_doc = take 3 example_lines @ example_lines ! 3 # drop 4 example_lines \<and>
   section_num (example_lines ! 3) = Some 8 \<and>
   (\<exists>tail.
      update_specs_lines example_doc =
        take 3 example_lines @ [str_strip new_use_case, [], []] @ tail \<and>
      length tail = Suc (length (drop 4 example_lines)) \<and>
      (\<forall>i \<le> length (drop 4 example_lines).
         (section_pattern ((example_lines ! 3 # drop 4 example_lines) ! i) = None \<longrightarrow>
            tail ! i = (example_lines ! 3 # drop 4 example_lines) ! i) \<and>
         (\<forall>g t. section_pattern ((example_lines ! 3 # drop 4 example_lines) ! i) = Some (g, t) \<longrightarrow>
            (\<exists>n. tail ! i = heading_line n t)))) \<and>
   str_split example_doc = take 6 example_lines @ example_lines ! 6 # drop 7 example_lines \<and>
   take 6 (example_lines ! 6) = ''## 18.'' \<and>
   (\<exists>tail.
      update_specs_employer example_doc =
        Inr (text_lines (take 6 example_lines) @ new_section @ str_join tail) \<and>
      length tail = Suc (length (drop 7 example_lines)) \<and>
      (\<forall>i \<le> length (drop 7 example_lines).
         (header_pattern ((example_lines ! 6 # drop 7 example_lines) ! i) = None \<longrightarrow>
            tail ! i = (example_lines ! 6 # drop 7 example_lines) ! i) \<and>
         (\<forall>g r. header_pattern ((example_lines ! 6 # drop 7 example_lines) ! i) = Some (g, r) \<longrightarrow>
            tail ! i = ''## '' @ py_str (py_int g + 1) @ ''.'' @ r)))"
proof -
  have s8: "str_split example_doc =
      take 3 example_lines @ example_lines ! 3 # drop 4 example_lines"
    by code_simp
  have pre8: "\<forall>l\<in>set (take 3 example_lines). section_num l \<noteq> Some 8"
    by code_simp
  have h8: "section_num (example_lines ! 3) = Some 8"
    by code_simp
  have s18: "str_split example_doc =
      take 6 example_lines @ example_lines ! 6 # drop 7 example_lines"
    by code_simp
  have pre18: "\<forall>l\<in>set (take 6 example_lines). take 6 l \<noteq> ''## 18.''"
    by code_simp
  have h18: "take 6 (example_lines ! 6) = ''## 18.''"
    by code_simp
  from heading_like_lines [OF s8, THEN conjunct1] pre8 h8
    heading_like_lines [OF s18, THEN conjunct2] pre18 h18 s8 s18
  show ?thesis by blast
qed

theorem heading_like_lines_counterexample:
  "example_lines ! 3 = ''## 8. Create Job Post'' \<and>
   example_lines ! 5 = ''## 3. Example'' \<and>
   example_lines ! 6 = ''## 18. Reports'' \<and>
   example_lines ! 7 = ''## 3. Example'' \<and>
   update_specs example_doc =
     str_join
       [''# Use Case Specifications'',
        ''## 7. Sign Up / Login'',
        ''see ## 8. below'',
        str_strip new_use_case, '''', '''',
        ''## 9. Create Job Post'',
        ''body'',
        ''## 10. Example'',
        ''## 11. Reports'',
        ''## 12. Example'',
        ''## 18.5 draft'',
        ''## 13. Reports''] \<and>
   update_specs_employer example_doc =
     Inr (text_lines
            [''# Use Case Specifications'',
             ''## 7. Sign Up / Login'',
             ''see ## 8. below'',
             ''## 8. Create Job Post'',
             ''body'',
             ''## 3. Example''] @
          new_section @
          str_join
            [''## 19. Reports'',
             ''## 4. Example'',
             ''## 19.5 draft'',
             ''## 19. Reports''])"
  by code_simp





text \<open>
  Claim C7. The only failure is the exit of \<^verbatim>\<open>update_specs_employer.py\<close> when section 18
  is missing, and it comes before the file is written: whenever the exit status is not 0
  the file's text is what it was. \<^verbatim>\<open>update_specs.py\<close> never fails.
\<close>

theorem failure_leaves_file:
  "fst (update_specs_main w) = 0 \<and>
   (fst (update_specs_employer_main w) \<noteq> 0 \<longrightarrow>
      file_content (snd (update_specs_employer_main w)) = file_content w)"
  by (cases "update_specs_employer (file_content w)")
     (auto simp: update_specs_main_def update_specs_employer_main_def split: error.splits)

theorem failure_leaves_file_witness:
  "fst (update_specs_employer_main \<lparr>file_content = sections_1_to_17, stdout = []\<rparr>) \<noteq> 0 \<and>
   file_content (snd (update_specs_employer_main \<lparr>file_content = sections_1_to_17, stdout = []\<rparr>)) =
     sections_1_to_17"
proof -
  have f: "fst (update_specs_employer_main \<lparr>file_content = sections_1_to_17, stdout = []\<rparr>) \<noteq> 0"
    by code_simp
  with failure_leaves_file [of "\<lparr>file_content = sections_1_to_17, stdout = []\<rparr>"]
  show ?thesis by simp
qed

text \<open>
  Claim C8, as the code has it. When no line of the file is a heading line (none matches
  \<open>section_pattern\<close>), \<^verbatim>\<open>update_specs.py\<close> writes back the very text it read.
  \<^verbatim>\<open>update_specs_employer.py\<close> does not pass a text through: when no line starts with
  \<^verbatim>\<open>## 18.\<close> it prints that section 18 was not found and exits with status 1 without
  writing, so the file keeps its text; when some line starts with \<^verbatim>\<open>## 18.\<close>, heading
  line or not, it inserts and the text it writes differs from the text it read.
\<close>

theorem no_headings_behaviour:
  "((\<forall>l\<in>set (str_split (file_content w)). section_pattern l = None) \<longrightarrow>
      update_specs (file_content w) = file_content w \<and>
      file_content (snd (update_specs_main w)) = file_content w) \<and>
   ((\<forall>l\<in>set (str_split (file_content w)). take 6 l \<noteq> ''## 18.'') \<longrightarrow>
      update_specs_employer (file_content w) = Inl (SystemExit 1) \<and>
      update_specs_employer_main w =
        (1, w\<lparr>stdout := stdout w @ [''Could not find Section 18.'']\<rparr>) \<and>
      file_content (snd (update_specs_employer_main w)) = file_content w) \<and>
   ((\<exists>l\<in>set (str_split (file_content w)). take 6 l = ''## 18.'') \<longrightarrow>
      fst (update_specs_employer_main w) = 0 \<and>
      file_content (snd (update_specs_employer_main w)) \<noteq> file_content w)"
proof (intro conjI impI)
  assume a: "\<forall>l\<in>set (str_split (file_content w)). section_pattern l = None"
  then show u: "update_specs (file_content w) = file_content w"
    by (intro update_specs_same) (simp add: section_pattern_None_num)
  then show "file_content (snd (update_specs_main w)) = file_content w"
    by (simp add: update_specs_main_def)
next
  assume "\<forall>l\<in>set (str_split (file_content w)). take 6 l \<noteq> ''## 18.''"
  then show e: "update_specs_employer (file_content w) = Inl (SystemExit 1)"
    by (simp add: update_specs_employer_fail)
  then show m: "update_specs_employer_main w =
        (1, w\<lparr>stdout := stdout w @ [''Could not find Section 18.'']\<rparr>)"
    by (simp add: update_specs_employer_main_def)
  show "file_content (snd (update_specs_employer_main w)) = file_content w"
    by (simp add: m)
next
  assume a: "\<exists>l\<in>set (str_split (file_content w)). take 6 l = ''## 18.''"
  have "\<exists>out. update_specs_employer (file_content w) = Inr out"
  proof (cases "update_specs_employer (file_content w)")
    case (Inl e)
    with a show ?thesis
      using update_specs_employer_fail [of "file_content w" e] by auto
  next
    case (Inr out)
    then show ?thesis by blast
  qed
  then obtain out where out: "update_specs_employer (file_content w) = Inr out" ..
  then show "fst (update_specs_employer_main w) = 0"
    by (simp add: update_specs_employer_main_def)
  from out update_specs_employer_changes [OF out]
  show "file_content (snd (update_specs_employer_main w)) \<noteq> file_content w"
    by (simp add: update_specs_employer_main_def)
qed

theorem no_headings_behaviour_witness:
  "headings ''# Notes\<newline>\<newline>see ## 8. Create Job Post\<newline>'' = [] \<and>
   update_specs ''# Notes\<newline>\<newline>see ## 8. Create Job Post\<newline>'' =
     ''# Notes\<newline>\<newline>see ## 8. Create Job Post\<newline>'' \<and>
   file_content (snd (update_specs_main
      \<lparr>file_content = ''# Notes\<newline>\<newline>see ## 8. Create Job Post\<newline>'', stdout = []\<rparr>)) =
     ''# Notes\<newline>\<newline>see ## 8. Create Job Post\<newline>'' \<and>
   update_specs_employer_main
      \<lparr>file_content = ''# Notes\<newline>\<newline>see ## 8. Create Job Post\<newline>'', stdout = []\<rparr> =
     (1, \<lparr>file_content = ''# Notes\<newline>\<newline>see ## 8. Create Job Post\<newline>'',
          stdout = [''Could not find Section 18.'']\<rparr>) \<and>
   headings ''## 18.5 draft'' = [] \<and>
   fst (update_specs_employer_main \<lparr>file_content = ''## 18.5 draft'', stdout = []\<rparr>) = 0 \<and>
   file_content (snd (update_specs_employer_main
      \<lparr>file_content = ''## 18.5 draft'', stdout = []\<rparr>)) \<noteq> ''## 18.5 draft''"
proof -
  let ?w = "\<lparr>file_content = ''# Notes\<newline>\<newline>see ## 8. Create Job Post\<newline>'', stdout = []\<rparr>"
  let ?v = "\<lparr>file_content = ''## 18.5 draft'', stdout = []\<rparr>"
  have a: "\<forall>l\<in>set (str_split (file_content ?w)). section_pattern l = None"
    by code_simp
  have b: "\<forall>l\<in>set (str_split (file_content ?w)). take 6 l \<noteq> ''## 18.''"
    by code_simp
  have c: "\<exists>l\<in>set (str_split (file_content ?v)). take 6 l = ''## 18.''"
    by code_simp
  have h1: "headings ''# Notes\<newline>\<newline>see ## 8. Create Job Post\<newline>'' = []"
    by code_simp
  have h2: "headings ''## 18.5 draft'' = []"
    by code_simp
  from no_headings_behaviour [of ?w] a b
  have 1: "update_specs (file_content ?w) = file_content ?w"
    and 2: "file_content (snd (update_specs_main ?w)) = file_content ?w"
    and 3: "update_specs_employer_main ?w =
        (1, ?w\<lparr>stdout := stdout ?w @ [''Could not find Section 18.'']\<rparr>)"
    by blast+
  from no_headings_behaviour [of ?v] c
  have 4: "fst (update_specs_employer_main ?v) = 0"
    and 5: "file_content (snd (update_specs_employer_main ?v)) \<noteq> file_content ?v"
    by blast+
  from h1 h2 1 2 3 4 5 show ?thesis by simp
qed

theorem no_headings_counterexample:
  "headings ''## 18.5 draft'' = [] \<and>
   update_specs_employer ''## 18.5 draft'' = Inr (new_section @ ''## 19.5 draft'') \<and>
   headings ''intro\<newline>## 18.\<newline>text'' = [] \<and>
   update_specs_employer ''intro\<newline>## 18.\<newline>text'' =
     Inr (''intro\<newline>'' @ new_section @ ''## 19.\<newline>text'') \<and>
   headings ''# Notes'' = [] \<and>
   update_specs_employer ''# Notes'' = Inl (SystemExit 1)"
  by code_simp

text \<open>
  Claim C9. Let \<open>h\<close> be the first line that starts with \<^verbatim>\<open>## 18.\<close>, \<open>pre\<close> the lines before
  it and \<open>post\<close> the lines after it. \<^verbatim>\<open>update_specs_employer.py\<close> writes the text of
  \<open>pre\<close>, the new section, and then every line of \<open>h # post\<close> passed through
  \<open>replace_header\<close>. That function turns a line \<^verbatim>\<open>## <digits>.<rest>\<close> into
  \<^verbatim>\<open>## <number + 1>.<rest>\<close>, whatever the number is and wherever the line stands: so a
  line \<^verbatim>\<open>## N.\<close> becomes \<^verbatim>\<open>## N+1.\<close> for every \<open>N\<close>.
\<close>

theorem employer_renumbering:
  assumes "str_split content = pre @ h # post"
    and "\<forall>l\<in>set pre. take 6 l \<noteq> ''## 18.''" and "take 6 h = ''## 18.''"
  shows "update_specs_employer content =
           Inr (text_lines pre @ new_section @ str_join (map replace_header (h # post))) \<and>
         (\<forall>ds rest. ds \<noteq> [] \<and> (\<forall>c\<in>set ds. is_digit c) \<longrightarrow>
            replace_header (''## '' @ ds @ ''.'' @ rest) =
              ''## '' @ py_str (py_int ds + 1) @ ''.'' @ rest) \<and>
         (\<forall>n rest. replace_header (''## '' @ py_str n @ ''.'' @ rest) =
              ''## '' @ py_str (n + 1) @ ''.'' @ rest)"
proof (intro conjI allI impI)
  show "update_specs_employer content =
           Inr (text_lines pre @ new_section @ str_join (map replace_header (h # post)))"
    using assms by (rule update_specs_employer_insert)
next
  fix ds rest assume "ds \<noteq> [] \<and> (\<forall>c\<in>set ds. is_digit c)"
  then show "replace_header (''## '' @ ds @ ''.'' @ rest) =
              ''## '' @ py_str (py_int ds + 1) @ ''.'' @ rest"
    by (intro replace_header_digits) auto
next
  fix n rest
  show "replace_header (''## '' @ py_str n @ ''.'' @ rest) =
              ''## '' @ py_str (n + 1) @ ''.'' @ rest"
    using replace_header_digits [of "py_str n" rest] by (simp add: py_str_digits)
qed

theorem employer_renumbering_witness:
  "str_split example_doc = take 6 example_lines @ example_lines ! 6 # drop 7 example_lines \<and>
   take 6 (example_lines ! 6) = ''## 18.'' \<and>
   update_specs_employer example_doc =
     Inr (text_lines (take 6 example_lines) @ new_section @
          str_join (map replace_header (example_lines ! 6 # drop 7 example_lines))) \<and>
   example_lines ! 6 # drop 7 example_lines =
     [''## 18. Reports'', ''## 3. Example'', ''## 18.5 draft'', ''## 18. Reports''] \<and>
   map replace_header (example_lines ! 6 # drop 7 example_lines) =
     [''## 19. Reports'', ''## 4. Example'', ''## 19.5 draft'', ''## 19. Reports''] \<and>
   replace_header (''## '' @ ''3'' @ ''.'' @ '' Example'') =
     ''## '' @ py_str (py_int ''3'' + 1) @ ''.'' @ '' Example'' \<and>
   replace_header (''## '' @ py_str 3 @ ''.'' @ '' Example'') =
     ''## '' @ py_str (3 + 1) @ ''.'' @ '' Example''"
proof -
  have s18: "str_split example_doc =
      take 6 example_lines @ example_lines ! 6 # drop 7 example_lines"
    by code_simp
  have pre18: "\<forall>l\<in>set (take 6 example_lines). take 6 l \<noteq> ''## 18.''"
    by code_simp
  have h18: "take 6 (example_lines ! 6) = ''## 18.''"
    by code_simp
  have tl: "example_lines ! 6 # drop 7 example_lines =
     [''## 18. Reports'', ''## 3. Example'', ''## 18.5 draft'', ''## 18. Reports'']"
    by code_simp
  have out: "map replace_header (example_lines ! 6 # drop 7 example_lines) =
     [''## 19. Reports'', ''## 4. Example'', ''## 19.5 draft'', ''## 19. Reports'']"
    by code_simp
  have d: "''3'' \<noteq> [] \<and> (\<forall>c\<in>set ''3''. is_digit c)"
    by code_simp
  note e = employer_renumbering [OF s18 pre18 h18]
  from e have 1: "update_specs_employer example_doc =
     Inr (text_lines (take 6 example_lines) @ new_section @
          str_join (map replace_header (example_lines ! 6 # drop 7 example_lines)))"
    by (rule conjunct1)
  from e d have 2: "replace_header (''## '' @ ''3'' @ ''.'' @ '' Example'') =
     ''## '' @ py_str (py_int ''3'' + 1) @ ''.'' @ '' Example''"
    by blast
  from e have 3: "replace_header (''## '' @ py_str 3 @ ''.'' @ '' Example'') =
     ''## '' @ py_str (3 + 1) @ ''.'' @ '' Example''"
    by blast
  from s18 h18 1 tl out 2 3 show ?thesis by blast
qed

text \<open>
  Claim C10. Let \<open>h\<close> be the first heading line numbered 8, \<open>pre\<close> the lines before it
  and \<open>post\<close> the lines after it. The loop of \<^verbatim>\<open>update_specs.py\<close> leaves \<open>pre\<close> as it is,
  adds the new use case and two empty lines, and then goes through \<open>h # post\<close>: a line
  that does not match \<open>section_pattern\<close> is kept, and the heading lines get the numbers
  9, 10, 11, \<dots> in the order in which they stand (\<open>h\<close> itself becomes 9), whatever their
  numbers were, each with its own title.
\<close>

theorem onboarding_renumbering:
  assumes "str_split content = pre @ h # post"
    and "\<forall>l\<in>set pre. section_num l \<noteq> Some 8"
    and "section_pattern h = Some (g, t)" and "py_int g = 8"
  shows "\<exists>tail.
           update_specs_lines content = pre @ [str_strip new_use_case, [], []] @ tail \<and>
           length tail = Suc (length post) \<and>
           (\<forall>i \<le> length post.
              tail ! i =
                (case section_pattern ((h # post) ! i) of
                   None \<Rightarrow> (h # post) ! i
                 | Some (g', t') \<Rightarrow>
                     heading_line
                       (9 + length (filter (\<lambda>l. section_pattern l \<noteq> None) (take i (h # post))))
                       t')) \<and>
           List.map_filter heading_of tail =
             zip [9 ..< 9 + length (List.map_filter heading_of (h # post))]
                 (map snd (List.map_filter heading_of (h # post)))"
proof (intro exI conjI)
  show "update_specs_lines content =
          pre @ [str_strip new_use_case, [], []] @ renumber 8 (h # post)"
    using assms by (rule update_specs_lines_tail)
  show "length (renumber 8 (h # post)) = Suc (length post)"
    by (simp only: length_renumber length_Cons)
  show "\<forall>i \<le> length post.
          renumber 8 (h # post) ! i =
            (case section_pattern ((h # post) ! i) of
               None \<Rightarrow> (h # post) ! i
             | Some (g', t') \<Rightarrow>
                 heading_line
                   (9 + length (filter (\<lambda>l. section_pattern l \<noteq> None) (take i (h # post))))
                   t')"
    by (intro allI impI renumber_nth_8)
  show "List.map_filter heading_of (renumber 8 (h # post)) =
          zip [9 ..< 9 + length (List.map_filter heading_of (h # post))]
              (map snd (List.map_filter heading_of (h # post)))"
    using renumber_headings [of 8 "h # post"] by simp
qed

theorem onboarding_renumbering_witness:
  "str_split example_doc = take 3 example_lines @ example_lines ! 3 # drop 4 example_lines \<and>
   section_pattern (example_lines ! 3) = Some (''8'', ''Create Job Post'') \<and>
   py_int ''8'' = 8 \<and>
   (\<exists>tail.
      update_specs_lines example_doc =
        take 3 example_lines @ [str_strip new_use_case, [], []] @ tail \<and>
      length tail = Suc (length (drop 4 example_lines)) \<and>
      (\<forall>i \<le> length (drop 4 example_lines).
         tail ! i =
           (case section_pattern ((example_lines ! 3 # drop 4 example_lines) ! i) of
              None \<Rightarrow> (example_lines ! 3 # drop 4 example_lines) ! i
            | Some (g', t') \<Rightarrow>
                heading_line
                  (9 + length (filter (\<lambda>l. section_pattern l \<noteq> None)
                                 (take i (example_lines ! 3 # drop 4 example_lines))))
                  t')) \<and>
      List.map_filter heading_of tail =
        zip [9 ..< 9 + length (List.map_filter heading_of (example_lines ! 3 # drop 4 example_lines))]
            (map snd (List.map_filter heading_of (example_lines ! 3 # drop 4 example_lines)))) \<and>
   map (\<lambda>l. section_num l) (drop 3 example_lines) =
     [Some 8, None, Some 3, Some 18, Some 3, None, Some 18] \<and>
   drop 6 (update_specs_lines example_doc) =
     [''## 9. Create Job Post'', ''body'', ''## 10. Example'', ''## 11. Reports'',
      ''## 12. Example'', ''## 18.5 draft'', ''## 13. Reports'']"
proof -
  have split: "str_split example_doc =
      take 3 example_lines @ example_lines ! 3 # drop 4 example_lines"
    by code_simp
  have pre: "\<forall>l\<in>set (take 3 example_lines). section_num l \<noteq> Some 8"
    by code_simp
  have h: "section_pattern (example_lines ! 3) = Some (''8'', ''Create Job Post'')"
    by code_simp
  have g: "py_int ''8'' = 8"
    by code_simp
  have nums: "map (\<lambda>l. section_num l) (drop 3 example_lines) =
     [Some 8, None, Some 3, Some 18, Some 3, None, Some 18]"
    by code_simp
  have out: "drop 6 (update_specs_lines example_doc) =
     [''## 9. Create Job Post'', ''body'', ''## 10. Example'', ''## 11. Reports'',
      ''## 12. Example'', ''## 18.5 draft'', ''## 13. Reports'']"
    by code_simp
  from onboarding_renumbering [OF split pre h g] split h g nums out
  show ?thesis by blast
qed

end
